theory Spec2Isabelle
  imports Main "HOL-Library.Word"
begin

section \<open>The xDS transport: data\<close>

text \<open>
  The development follows \<^verbatim>\<open>xds/internal/xdsclient/transport/transport.go\<close>.
  Handles the code never looks into (streams, connections, the node identity, resource
  payloads, dial credentials, the stream error callback) are plain identifiers.
  A \<^verbatim>\<open>nil\<close> pointer, interface or function is \<open>None\<close>.
\<close>

type_synonym adsStream = nat
type_synonym ClientConn = nat
type_synonym Node = string
type_synonym Any = string
type_synonym DialOption = nat
type_synonym StreamErrorHandlerFunc = nat
type_synonym Duration = int

text \<open>
  Modelled from the spec: \<^verbatim>\<open>xdsresource.ErrType\<close> and its enumeration of error types are
  not in the source file. The spec says that the update handler returns nil to accept,
  a "type unsupported" indicator for unknown types, or any other error to reject. An error
  value carries its xDS error type and the text \<^verbatim>\<open>Error()\<close> gives; the type of the nil
  error and of any error made elsewhere is \<open>ErrorTypeUnknown\<close>.
\<close>

datatype ErrorType = ErrorTypeUnknown | ErrorTypeResourceTypeUnsupported

datatype error = Err ErrorType string

fun ErrType :: "error option \<Rightarrow> ErrorType" where
  "ErrType None = ErrorTypeUnknown"
| "ErrType (Some (Err ty msg)) = ty"

fun Error_text :: "error \<Rightarrow> string" where
  "Error_text (Err ty msg) = msg"

text \<open>
  \<^verbatim>\<open>errors.New\<close> and \<^verbatim>\<open>fmt.Errorf\<close> with the verb \<^verbatim>\<open>%v\<close> make a fresh error, which
  does not keep the xDS type of the error it prints. Only the fixed part of a message and
  the text of the error it wraps are kept; quoting and JSON dumps are left out.
\<close>

definition errors_New :: "string \<Rightarrow> error" where
  "errors_New msg = Err ErrorTypeUnknown msg"

definition Errorf :: "string \<Rightarrow> error \<Rightarrow> error" where
  "Errorf prefix e = Err ErrorTypeUnknown (prefix @ Error_text e)"

text \<open>The status code of a NACK; the only code this file uses.\<close>

datatype Code = InvalidArgument

record Status =
  Code :: Code
  Message :: string

record DiscoveryRequest =
  Node :: Node
  TypeUrl :: string
  ResourceNames :: "string list"
  VersionInfo :: string
  ResponseNonce :: string
  ErrorDetail :: "Status option"

record DiscoveryResponse =
  Resources :: "Any list"
  RespTypeUrl :: string
  RespVersionInfo :: string
  RespNonce :: string

record ResourceUpdate =
  upd_Resources :: "Any list"
  upd_URL :: string
  upd_Version :: string

type_synonym UpdateHandlerFunc = "ResourceUpdate \<Rightarrow> error option"

record resourceRequest =
  req_resources :: "string list"
  req_url :: string

record ackRequest =
  ack_url :: string
  ack_version :: string
  ack_nonce :: string
  ack_nackErr :: "error option"
  ack_stream :: "adsStream option"

text \<open>What travels on \<^verbatim>\<open>adsRequestCh\<close>: the two cases of the type switch in \<^verbatim>\<open>send\<close>.\<close>

datatype request = ResourceRequest resourceRequest | AckRequest ackRequest

text \<open>
  The \<^verbatim>\<open>Transport\<close> struct. The three maps are Go maps; \<^verbatim>\<open>map[string]bool\<close>, which the
  code fills with \<^verbatim>\<open>true\<close> only, is a set of names. \<open>adsStreamCh\<close> is the content of the
  channel of capacity 1, oldest first; \<open>adsRequestCh\<close> the content of the unbounded
  buffer, oldest first. \<^verbatim>\<open>backoff\<close> takes a Go \<^verbatim>\<open>int\<close>, a signed machine integer,
  64 bits wide here. Three fields that the struct does not have record what the transport
  does to the outside: \<open>sendCalls\<close>, every call of \<^verbatim>\<open>stream.Send\<close> with its stream and
  request, in order; \<open>streamErrs\<close>, every error handed to \<^verbatim>\<open>adsStreamErrHandler\<close>, in
  order; and \<open>ranges\<close>, the number of loops over a map made so far.
\<close>

record Transport =
  cc :: ClientConn
  serverURI :: string
  updateHandler :: UpdateHandlerFunc
  adsStreamErrHandler :: StreamErrorHandlerFunc
  backoff :: "64 word \<Rightarrow> Duration"
  nodeProto :: Node
  adsStreamCh :: "adsStream list"
  adsRequestCh :: "request list"
  resources :: "string \<rightharpoonup> string set"
  versions :: "string \<rightharpoonup> string"
  nonces :: "string \<rightharpoonup> string"
  sendCalls :: "(adsStream \<times> DiscoveryRequest) list"
  streamErrs :: "error list"
  ranges :: nat

text \<open>
  The outside of the transport. \<open>SendFn\<close> is what \<^verbatim>\<open>stream.Send\<close> answers, given the
  calls made so far, the stream and the request: \<open>None\<close> for success. Go leaves the order in
  which \<^verbatim>\<open>range\<close> visits a map open, and picks it anew for every loop: a \<open>visitOrder\<close>
  gives, for a set of keys, the order of one visit, and a \<open>rangeOrder\<close> gives the
  \<open>visitOrder\<close> of every loop over a map, the loops being numbered as they are made.
\<close>

type_synonym SendFn =
  "(adsStream \<times> DiscoveryRequest) list \<Rightarrow> adsStream \<Rightarrow> DiscoveryRequest \<Rightarrow> error option"

type_synonym visitOrder = "string set \<Rightarrow> string list"

type_synonym rangeOrder = "nat \<Rightarrow> visitOrder"

definition visits :: "visitOrder \<Rightarrow> string set \<Rightarrow> bool" where
  "visits vo S \<longleftrightarrow> distinct (vo S) \<and> set (vo S) = S"

text \<open>Reading a Go map of strings at a key it does not have gives the empty string.\<close>

definition lookup :: "(string \<rightharpoonup> string) \<Rightarrow> string \<Rightarrow> string" where
  "lookup m k = (case m k of None \<Rightarrow> [] | Some v \<Rightarrow> v)"

section \<open>Construction\<close>

record Options =
  ServerURI :: string
  Creds :: "DialOption option"
  UpdateHandler :: "UpdateHandlerFunc option"
  StreamErrorHandler :: "StreamErrorHandlerFunc option"
  Backoff :: "(64 word \<Rightarrow> Duration) option"
  NodeProto :: Node

text \<open>
  \<^verbatim>\<open>New\<close>. \<open>grpcDial\<close> is the package variable of that name, and \<open>defaultBackoff\<close> stands
  for \<^verbatim>\<open>backoff.DefaultExponential.Backoff\<close>; both live outside this file. The goroutine
  \<^verbatim>\<open>adsRunner\<close> that \<^verbatim>\<open>New\<close> starts is modelled below.
\<close>

definition New ::
  "(string \<Rightarrow> DialOption \<Rightarrow> error + ClientConn) \<Rightarrow> (64 word \<Rightarrow> Duration) \<Rightarrow> Options
     \<Rightarrow> error + Transport" where
  "New grpcDial defaultBackoff opts =
     (if ServerURI opts = [] then
        Inl (errors_New ''missing server URI when creating a new transport'')
      else case Creds opts of
        None \<Rightarrow> Inl (errors_New ''missing credentials when creating a new transport'')
      | Some creds \<Rightarrow>
      (case UpdateHandler opts of
        None \<Rightarrow> Inl (errors_New ''missing update handler when creating a new transport'')
      | Some uh \<Rightarrow>
      (case StreamErrorHandler opts of
        None \<Rightarrow>
          Inl (errors_New ''missing stream error handler when creating a new transport'')
      | Some eh \<Rightarrow>
      (case grpcDial (ServerURI opts) creds of
        Inl err \<Rightarrow>
          Inl (Errorf ''failed to create a transport to the management server: '' err)
      | Inr conn \<Rightarrow>
          Inr \<lparr>cc = conn,
               serverURI = ServerURI opts,
               updateHandler = uh,
               adsStreamErrHandler = eh,
               backoff = (case Backoff opts of None \<Rightarrow> defaultBackoff | Some b \<Rightarrow> b),
               nodeProto = NodeProto opts,
               adsStreamCh = [],
               adsRequestCh = [],
               resources = Map.empty,
               versions = Map.empty,
               nonces = Map.empty,
               sendCalls = [],
               streamErrs = [],
               ranges = 0\<rparr>))))"

section \<open>Requests\<close>


definition sendAggregatedDiscoveryServiceRequest ::
  "SendFn \<Rightarrow> Transport \<Rightarrow> adsStream \<Rightarrow> string list \<Rightarrow> string \<Rightarrow> string \<Rightarrow> string
     \<Rightarrow> error option \<Rightarrow> Transport \<times> error option" where
  "sendAggregatedDiscoveryServiceRequest streamSend t strm resourceNames resourceURL ver non nackErr =
     (let req = \<lparr>Node = nodeProto t,
                 TypeUrl = resourceURL,
                 ResourceNames = resourceNames,
                 VersionInfo = ver,
                 ResponseNonce = non,
                 ErrorDetail =
                   (case nackErr of
                      None \<Rightarrow> None
                    | Some e \<Rightarrow> Some \<lparr>Code = InvalidArgument, Message = Error_text e\<rparr>)\<rparr>;
          t' = t\<lparr>sendCalls := sendCalls t @ [(strm, req)]\<rparr>
      in case streamSend (sendCalls t) strm req of
           Some err \<Rightarrow> (t', Some (Errorf ''sending ADS request failed: '' err))
         | None \<Rightarrow> (t', None))"

text \<open>\<^verbatim>\<open>mapToSlice\<close> is one loop over the map; \<open>vo\<close> is the order of that loop.\<close>

definition mapToSlice :: "visitOrder \<Rightarrow> string set \<Rightarrow> string list" where
  "mapToSlice vo m = vo m"

definition sliceToMap :: "string list \<Rightarrow> string set" where
  "sliceToMap ss = set ss"

definition processResourceRequest ::
  "Transport \<Rightarrow> resourceRequest \<Rightarrow> Transport \<times> string list \<times> string \<times> string \<times> string" where
  "processResourceRequest t req =
     (let t' = t\<lparr>resources := (resources t)(req_url req \<mapsto> sliceToMap (req_resources req))\<rparr>
      in (t', req_resources req, req_url req,
          lookup (versions t') (req_url req), lookup (nonces t') (req_url req)))"

definition processAckRequest ::
  "rangeOrder \<Rightarrow> Transport \<Rightarrow> ackRequest \<Rightarrow> adsStream option
     \<Rightarrow> Transport \<times> string list \<times> string \<times> string \<times> string \<times> bool" where
  "processAckRequest rng t ack strm =
     (if ack_stream ack \<noteq> strm then (t, [], [], [], [], False)
      else
        let t1 = t\<lparr>nonces := (nonces t)(ack_url ack \<mapsto> ack_nonce ack)\<rparr> in
        case resources t1 (ack_url ack) of
          None \<Rightarrow> (t1, [], [], [], [], False)
        | Some s \<Rightarrow>
            if s = {} then (t1, [], [], [], [], False)
            else
              let rs = mapToSlice (rng (ranges t1)) s;
                  t2 = t1\<lparr>ranges := Suc (ranges t1)\<rparr>;
                  t3 = (if ack_nackErr ack = None
                        then t2\<lparr>versions := (versions t2)(ack_url ack \<mapsto> ack_version ack)\<rparr>
                        else t2)
              in (t3, rs, ack_url ack, ack_version ack, ack_nonce ack, True))"

section \<open>The stream channel\<close>

text \<open>
  \<^verbatim>\<open>adsStreamCh\<close> is made with \<^verbatim>\<open>make(chan adsStream, 1)\<close>. A send on a full channel
  blocks (\<open>None\<close>); the \<^verbatim>\<open>select\<close> with a \<^verbatim>\<open>default\<close> takes the oldest element when
  there is one.
\<close>

definition adsStreamCh_cap :: nat where
  "adsStreamCh_cap = 1"

definition chan_drain :: "adsStream list \<Rightarrow> adsStream list" where
  "chan_drain ch = (case ch of [] \<Rightarrow> [] | x # rest \<Rightarrow> rest)"

definition chan_send :: "adsStream \<Rightarrow> adsStream list \<Rightarrow> adsStream list option" where
  "chan_send s ch = (if length ch < adsStreamCh_cap then Some (ch @ [s]) else None)"

definition chan_recv :: "adsStream list \<Rightarrow> (adsStream \<times> adsStream list) option" where
  "chan_recv ch = (case ch of [] \<Rightarrow> None | x # rest \<Rightarrow> Some (x, rest))"

section \<open>The sender\<close>

text \<open>
  \<^verbatim>\<open>sendExisting\<close>. The loop over \<^verbatim>\<open>t.resources\<close> visits the keys in the order \<open>rng\<close>
  gives for it; each call of \<^verbatim>\<open>mapToSlice\<close> in its body is a loop of its own. It stops at
  the first send that fails.
\<close>

fun sendExisting_loop ::
  "rangeOrder \<Rightarrow> SendFn \<Rightarrow> adsStream \<Rightarrow> string list \<Rightarrow> Transport \<Rightarrow> Transport \<times> bool" where
  "sendExisting_loop rng streamSend strm [] t = (t, True)"
| "sendExisting_loop rng streamSend strm (u # us) t =
     (case resources t u of
        None \<Rightarrow> sendExisting_loop rng streamSend strm us t
      | Some names \<Rightarrow>
          (case sendAggregatedDiscoveryServiceRequest streamSend
                  (t\<lparr>ranges := Suc (ranges t)\<rparr>) strm
                  (mapToSlice (rng (ranges t)) names) u (lookup (versions t) u) [] None of
             (t', Some err) \<Rightarrow> (t', False)
           | (t', None) \<Rightarrow> sendExisting_loop rng streamSend strm us t'))"

definition sendExisting :: "rangeOrder \<Rightarrow> SendFn \<Rightarrow> Transport \<Rightarrow> adsStream \<Rightarrow> Transport \<times> bool" where
  "sendExisting rng streamSend t strm =
     (let t' = t\<lparr>nonces := Map.empty\<rparr>
      in sendExisting_loop rng streamSend strm
           (rng (ranges t') (dom (resources t'))) (t'\<lparr>ranges := Suc (ranges t')\<rparr>))"

text \<open>
  One turn of the loop of \<^verbatim>\<open>send\<close>, for each case of its \<^verbatim>\<open>select\<close>. The state of the
  goroutine is its local variable \<^verbatim>\<open>stream\<close>. \<open>send_request\<close> is the case of a request
  \<open>u\<close> taken from \<open>adsRequestCh\<close>; \<open>send_stream\<close> the case of a stream taken from
  \<open>adsStreamCh\<close>.
\<close>

definition send_request ::
  "rangeOrder \<Rightarrow> SendFn \<Rightarrow> request \<Rightarrow> Transport \<times> adsStream option
     \<Rightarrow> Transport \<times> adsStream option" where
  "send_request rng streamSend u st =
     (let (t, strm) = st;
          (t1, rs, url, ver, non, doSend, nackErr) =
            (case u of
               ResourceRequest req \<Rightarrow>
                 (let (t1, rs, url, ver, non) = processResourceRequest t req
                  in (t1, rs, url, ver, non, True, None))
             | AckRequest ack \<Rightarrow>
                 (let (t1, rs, url, ver, non, doSend) = processAckRequest rng t ack strm
                  in (t1, rs, url, ver, non, doSend, ack_nackErr ack)))
      in if \<not> doSend then (t1, strm)
         else case strm of
           None \<Rightarrow> (t1, None)
         | Some s \<Rightarrow>
             (case sendAggregatedDiscoveryServiceRequest streamSend t1 s rs url ver non nackErr of
                (t2, Some err) \<Rightarrow> (t2, None)
              | (t2, None) \<Rightarrow> (t2, Some s)))"

definition send_stream ::
  "rangeOrder \<Rightarrow> SendFn \<Rightarrow> adsStream \<Rightarrow> Transport \<times> adsStream option
     \<Rightarrow> Transport \<times> adsStream option" where
  "send_stream rng streamSend s st =
     (let (t, strm) = st;
          (t', ok) = sendExisting rng streamSend t s
      in if ok then (t', Some s) else (t', None))"

text \<open>
  The loop itself. Each turn takes what the \<^verbatim>\<open>select\<close> finds ready: the cancelled
  context, the stream waiting in \<open>adsStreamCh\<close>, or the oldest request in
  \<open>adsRequestCh\<close>. Which of several ready cases Go takes is open, so the choices of a run
  are given as a list; a choice that is not ready leaves the state as it is.
\<close>

datatype sendCase = CtxDone | FromStreamCh | FromRequestCh

fun send_loop ::
  "rangeOrder \<Rightarrow> SendFn \<Rightarrow> sendCase list \<Rightarrow> Transport \<times> adsStream option
     \<Rightarrow> Transport \<times> adsStream option" where
  "send_loop rng streamSend [] st = st"
| "send_loop rng streamSend (CtxDone # cs) st = st"
| "send_loop rng streamSend (FromStreamCh # cs) (t, strm) =
     (case chan_recv (adsStreamCh t) of
        None \<Rightarrow> send_loop rng streamSend cs (t, strm)
      | Some (s, rest) \<Rightarrow>
          send_loop rng streamSend cs
            (send_stream rng streamSend s (t\<lparr>adsStreamCh := rest\<rparr>, strm)))"
| "send_loop rng streamSend (FromRequestCh # cs) (t, strm) =
     (case adsRequestCh t of
        [] \<Rightarrow> send_loop rng streamSend cs (t, strm)
      | u # rest \<Rightarrow>
          send_loop rng streamSend cs
            (send_request rng streamSend u (t\<lparr>adsRequestCh := rest\<rparr>, strm)))"

definition send :: "rangeOrder \<Rightarrow> SendFn \<Rightarrow> sendCase list \<Rightarrow> Transport \<Rightarrow> Transport \<times> adsStream option" where
  "send rng streamSend cs t = send_loop rng streamSend cs (t, None)"

section \<open>The receiver\<close>

text \<open>
  One turn of the loop of \<^verbatim>\<open>recv\<close> after a read that succeeded. The NACK reads
  \<^verbatim>\<open>t.versions\<close> at the moment it is put on the queue.
\<close>

definition recv_msg :: "adsStream \<Rightarrow> DiscoveryResponse \<Rightarrow> Transport \<Rightarrow> Transport" where
  "recv_msg strm resp t =
     (let rs = Resources resp; u = RespTypeUrl resp;
          rVersion = RespVersionInfo resp; non = RespNonce resp;
          err = updateHandler t \<lparr>upd_Resources = rs, upd_URL = u, upd_Version = rVersion\<rparr>
      in if ErrType err = ErrorTypeResourceTypeUnsupported then t
         else case err of
           Some e \<Rightarrow>
             t\<lparr>adsRequestCh := adsRequestCh t @
                 [AckRequest \<lparr>ack_url = u, ack_version = lookup (versions t) u, ack_nonce = non,
                              ack_nackErr = Some e, ack_stream = Some strm\<rparr>]\<rparr>
         | None \<Rightarrow>
             t\<lparr>adsRequestCh := adsRequestCh t @
                 [AckRequest \<lparr>ack_url = u, ack_version = rVersion, ack_nonce = non,
                              ack_nackErr = None, ack_stream = Some strm\<rparr>]\<rparr>)"

text \<open>
  \<^verbatim>\<open>recv\<close>. What the stream delivers is given as the list of the responses read before
  the read that fails, and the error of that read. The third argument is the local
  variable \<^verbatim>\<open>msgReceived\<close>.
\<close>

fun recv_loop ::
  "adsStream \<Rightarrow> DiscoveryResponse list \<Rightarrow> error \<Rightarrow> bool \<Rightarrow> Transport \<Rightarrow> Transport \<times> bool" where
  "recv_loop strm [] e msgReceived t =
     (t\<lparr>streamErrs := streamErrs t @ [Errorf ''failed to read ADS response: '' e]\<rparr>,
      msgReceived)"
| "recv_loop strm (r # rs) e msgReceived t = recv_loop strm rs e True (recv_msg strm r t)"

definition recv :: "adsStream \<Rightarrow> DiscoveryResponse list \<Rightarrow> error \<Rightarrow> Transport \<Rightarrow> Transport \<times> bool" where
  "recv strm reads e t = recv_loop strm reads e False t"

section \<open>The handoff of the stream\<close>

text \<open>
  The runner and the sender share the channel. Between its \<^verbatim>\<open>select\<close> and its send the
  runner can be overtaken by the sender, so the two statements are two steps: after the
  first the runner holds the new stream (\<open>Holding\<close>). The state also keeps the streams
  published so far, newest last.
\<close>

datatype runnerPc = Idle | Holding adsStream

record handoff =
  chan :: "adsStream list"
  pc :: runnerPc
  published :: "adsStream list"

definition handoff_init :: handoff where
  "handoff_init = \<lparr>chan = [], pc = Idle, published = []\<rparr>"

inductive handoff_step :: "handoff \<Rightarrow> handoff \<Rightarrow> bool" where
  drain: "pc h = Idle \<Longrightarrow> handoff_step h (h\<lparr>chan := chan_drain (chan h), pc := Holding s\<rparr>)"
| push: "pc h = Holding s \<Longrightarrow> chan_send s (chan h) = Some ch \<Longrightarrow>
         handoff_step h (h\<lparr>chan := ch, pc := Idle, published := published h @ [s]\<rparr>)"
| take: "chan_recv (chan h) = Some (x, ch) \<Longrightarrow>
         handoff_step h (h\<lparr>chan := ch\<rparr>)"

inductive handoff_reach :: "handoff \<Rightarrow> bool" where
  init: "handoff_reach handoff_init"
| step: "handoff_reach h \<Longrightarrow> handoff_step h h' \<Longrightarrow> handoff_reach h'"

section \<open>The runner\<close>

text \<open>
  One attempt at a stream, as the outside decides it: the creation fails, or it gives a
  stream that delivers some responses and then fails a read.
\<close>

datatype streamAttempt =
  CreateFailed error
| Created adsStream "DiscoveryResponse list" error

text \<open>
  The function literal in \<^verbatim>\<open>adsRunner\<close> whose result is \<^verbatim>\<open>resetBackoff\<close>. \<open>None\<close>: the
  send on \<open>adsStreamCh\<close> blocks.
\<close>

definition resetBackoff_of :: "streamAttempt \<Rightarrow> Transport \<Rightarrow> (Transport \<times> bool) option" where
  "resetBackoff_of a t =
     (case a of
        CreateFailed err \<Rightarrow> Some (t\<lparr>streamErrs := streamErrs t @ [err]\<rparr>, False)
      | Created strm reads e \<Rightarrow>
          (case chan_send strm (chan_drain (adsStreamCh t)) of
             None \<Rightarrow> None
           | Some ch \<Rightarrow> Some (recv strm reads e (t\<lparr>adsStreamCh := ch\<rparr>))))"

text \<open>
  The local variables of \<^verbatim>\<open>adsRunner\<close>: the attempt counter, and the delay the timer was
  last reset to. \<^verbatim>\<open>backoffAttempt\<close> is a Go \<^verbatim>\<open>int\<close>, a signed machine integer, 64 bits
  wide here: \<^verbatim>\<open>backoffAttempt++\<close> wraps around at the largest value.
\<close>

record runner =
  backoffAttempt :: "64 word"
  backoffTimer :: Duration

definition runner_init :: runner where
  "runner_init = \<lparr>backoffAttempt = 0, backoffTimer = 0\<rparr>"

definition adsRunner_iter ::
  "streamAttempt \<Rightarrow> Transport \<times> runner \<Rightarrow> (Transport \<times> runner) option" where
  "adsRunner_iter a st =
     (let (t, r) = st in
      case resetBackoff_of a t of
        None \<Rightarrow> None
      | Some (t', resetBackoff) \<Rightarrow>
          if resetBackoff then Some (t', r\<lparr>backoffAttempt := 0, backoffTimer := 0\<rparr>)
          else Some (t', r\<lparr>backoffAttempt := backoffAttempt r + 1,
                             backoffTimer := backoff t' (backoffAttempt r)\<rparr>))"

text \<open>
  The loop of \<^verbatim>\<open>adsRunner\<close> over the attempts made before the context is cancelled.
\<close>

fun adsRunner_loop :: "streamAttempt list \<Rightarrow> Transport \<times> runner \<Rightarrow> (Transport \<times> runner) option" where
  "adsRunner_loop [] st = Some st"
| "adsRunner_loop (a # as) st =
     (case adsRunner_iter a st of None \<Rightarrow> None | Some st' \<Rightarrow> adsRunner_loop as st')"

definition adsRunner :: "streamAttempt list \<Rightarrow> Transport \<Rightarrow> (Transport \<times> runner) option" where
  "adsRunner as t = adsRunner_loop as (t, runner_init)"

section \<open>Notions of the specification\<close>

text \<open>
  The request the specification describes for a resource type when a stream starts: the
  names subscribed for the type, in the order \<open>vo\<close> of the loop that lists them, the
  version last accepted for it, an empty nonce and no error. \<open>existingRequests\<close> gives
  these requests for a list of types, the loop over the names of the first type being the
  loop number \<open>n\<close>.
\<close>

definition existingRequest :: "visitOrder \<Rightarrow> Transport \<Rightarrow> string \<Rightarrow> DiscoveryRequest" where
  "existingRequest vo t u =
     \<lparr>Node = nodeProto t,
      TypeUrl = u,
      ResourceNames = vo (case resources t u of None \<Rightarrow> {} | Some names \<Rightarrow> names),
      VersionInfo = lookup (versions t) u,
      ResponseNonce = [],
      ErrorDetail = None\<rparr>"

fun existingRequests :: "rangeOrder \<Rightarrow> Transport \<Rightarrow> nat \<Rightarrow> string list \<Rightarrow> DiscoveryRequest list" where
  "existingRequests rng t n [] = []"
| "existingRequests rng t n (u # us) =
     existingRequest (rng n) t u # existingRequests rng t (Suc n) us"

text \<open>
  The value of a Go \<^verbatim>\<open>int\<close>, and the largest one.
\<close>

definition int_value :: "64 word \<Rightarrow> int" where
  "int_value w = sint w"

definition max_int :: int where
  "max_int = 2 ^ 63 - 1"


text \<open>Whether a response was read on the stream of an attempt.\<close>

fun msgs_received :: "streamAttempt \<Rightarrow> bool" where
  "msgs_received (CreateFailed err) = False"
| "msgs_received (Created strm reads e) = (reads \<noteq> [])"


text \<open>The sender working through a list of requests, oldest first.\<close>

definition send_requests ::
  "rangeOrder \<Rightarrow> SendFn \<Rightarrow> request list \<Rightarrow> Transport \<times> adsStream option
     \<Rightarrow> Transport \<times> adsStream option" where
  "send_requests rng streamSend us st = fold (send_request rng streamSend) us st"

section \<open>Example inputs\<close>

definition ex_rng :: rangeOrder where
  "ex_rng n S =
     (if even n then filter (\<lambda>x. x \<in> S) [''A'', ''B'', ''x'', ''y'']
      else filter (\<lambda>x. x \<in> S) [''y'', ''x'', ''B'', ''A''])"

definition ex_send_ok :: SendFn where
  "ex_send_ok calls strm req = None"

definition ex_send_broken :: SendFn where
  "ex_send_broken calls strm req = Some (Err ErrorTypeUnknown ''EOF'')"

definition ex_handler :: UpdateHandlerFunc where
  "ex_handler upd =
     (if upd_Version upd = ''bad'' then Some (Err ErrorTypeUnknown ''rejected'') else None)"

definition ex_transport :: Transport where
  "ex_transport =
     \<lparr>cc = 0, serverURI = ''xds.example.com:443'', updateHandler = ex_handler,
      adsStreamErrHandler = 0, backoff = (\<lambda>n. 1000 * (sint n + 1)), nodeProto = ''node'',
      adsStreamCh = [], adsRequestCh = [],
      resources = [''A'' \<mapsto> {''x'', ''y''}],
      versions = [''A'' \<mapsto> ''0''],
      nonces = [''A'' \<mapsto> ''n0''],
      sendCalls = [], streamErrs = [], ranges = 0\<rparr>"

definition ex_two_types :: Transport where
  "ex_two_types = ex_transport\<lparr>resources := [''A'' \<mapsto> {''x''}, ''B'' \<mapsto> {''y''}]\<rparr>"

definition ex_unsubscribed :: Transport where
  "ex_unsubscribed = ex_transport\<lparr>resources := Map.empty\<rparr>"

definition ex_ack :: ackRequest where
  "ex_ack = \<lparr>ack_url = ''A'', ack_version = ''1'', ack_nonce = ''n1'',
             ack_nackErr = None, ack_stream = Some 1\<rparr>"

definition ex_nack :: ackRequest where
  "ex_nack = \<lparr>ack_url = ''A'', ack_version = ''0'', ack_nonce = ''n2'',
              ack_nackErr = Some (Err ErrorTypeUnknown ''rejected''), ack_stream = Some 1\<rparr>"

definition ex_resp :: DiscoveryResponse where
  "ex_resp = \<lparr>Resources = [''r1''], RespTypeUrl = ''A'', RespVersionInfo = ''1'',
              RespNonce = ''n1''\<rparr>"

definition ex_resp_bad :: DiscoveryResponse where
  "ex_resp_bad = \<lparr>Resources = [''r1''], RespTypeUrl = ''A'', RespVersionInfo = ''bad'',
                  RespNonce = ''n2''\<rparr>"

definition ex_options :: Options where
  "ex_options =
     \<lparr>ServerURI = ''xds.example.com:443'', Creds = Some 0, UpdateHandler = Some ex_handler,
      StreamErrorHandler = Some 0, Backoff = None, NodeProto = ''node''\<rparr>"

definition ex_dial :: "string \<Rightarrow> DialOption \<Rightarrow> error + ClientConn" where
  "ex_dial uri creds = Inr 7"



definition ex_handoff :: handoff where
  "ex_handoff = \<lparr>chan = [2], pc = Idle, published = [1, 2]\<rparr>"

definition ex_eof :: error where
  "ex_eof = Err ErrorTypeUnknown ''EOF''"

definition ex_fresh :: Transport where
  "ex_fresh =
     \<lparr>cc = 7, serverURI = ''xds.example.com:443'', updateHandler = ex_handler,
      adsStreamErrHandler = 0, backoff = (\<lambda>n. 0), nodeProto = ''node'',
      adsStreamCh = [], adsRequestCh = [],
      resources = Map.empty, versions = Map.empty, nonces = Map.empty,
      sendCalls = [], streamErrs = [], ranges = 0\<rparr>"

definition ex_accepted :: Transport where
  "ex_accepted = ex_transport\<lparr>versions := [''A'' \<mapsto> ''1''], nonces := [''A'' \<mapsto> ''n1'']\<rparr>"

definition ex_send_second_fails :: SendFn where
  "ex_send_second_fails calls strm req = (if calls = [] then None else Some ex_eof)"

section \<open>Construction fails exactly on a missing option or a failed dial\<close>

text \<open>
  C9. \<^verbatim>\<open>New\<close> returns an error if and only if the server URI is empty, or the
  credentials, the update handler or the stream error handler are nil, or, with all four
  given, the dial fails. With the four given and a dial that succeeds, it returns a
  transport.
\<close>

theorem New_fails_iff:
  "isl (New grpcDial defaultBackoff opts) \<longleftrightarrow>
     (ServerURI opts = [] \<or> Creds opts = None \<or> UpdateHandler opts = None \<or>
      StreamErrorHandler opts = None \<or>
      (\<exists>creds. Creds opts = Some creds \<and> isl (grpcDial (ServerURI opts) creds)))"
  by (auto simp: New_def split: option.splits sum.splits)

theorem New_fails_iff_witness:
  "\<not> isl (New ex_dial (\<lambda>n. 0) ex_options) \<and>
   isl (New ex_dial (\<lambda>n. 0) (ex_options\<lparr>ServerURI := []\<rparr>)) \<and>
   isl (New ex_dial (\<lambda>n. 0) (ex_options\<lparr>Creds := None\<rparr>)) \<and>
   isl (New ex_dial (\<lambda>n. 0) (ex_options\<lparr>UpdateHandler := None\<rparr>)) \<and>
   isl (New ex_dial (\<lambda>n. 0) (ex_options\<lparr>StreamErrorHandler := None\<rparr>)) \<and>
   isl (New (\<lambda>uri creds. Inl (Err ErrorTypeUnknown ''refused'')) (\<lambda>n. 0) ex_options)"
  by (simp add: New_fails_iff) (simp add: ex_options_def ex_dial_def)

section \<open>Acknowledgements\<close>

lemma New_ex_fresh: "New ex_dial (\<lambda>n. 0) ex_options = Inr ex_fresh"
  by (simp add: New_def ex_options_def ex_dial_def ex_fresh_def)

text \<open>
  C1, as the claim states it, fails. On the transport that \<^verbatim>\<open>New\<close> returns, a response
  that arrives before any subscription is accepted and its ACK is put on the queue; the
  ACK, processed against the live stream, does not set the version of the type, which
  has no subscription.
\<close>

theorem ack_unsubscribed_keeps_version:
  "New ex_dial (\<lambda>n. 0) ex_options = Inr ex_fresh \<and>
   adsRequestCh (recv_msg 1 ex_resp ex_fresh) = [AckRequest ex_ack] \<and>
   ack_stream ex_ack = Some 1 \<and> ack_nackErr ex_ack = None \<and>
   versions (fst (processAckRequest ex_rng ex_fresh ex_ack (Some 1))) (ack_url ex_ack)
     \<noteq> Some (ack_version ex_ack)"
  by (simp add: New_ex_fresh)
     (simp add: processAckRequest_def recv_msg_def ex_ack_def ex_fresh_def ex_resp_def
        ex_handler_def Let_def)

text \<open>
  C1 (amended). An ACK or NACK request processed against the live stream sets the nonce
  of its type to the nonce it carries, whether it is an ACK or a NACK and whether or not
  the type is subscribed. It sets the version of its type to the version it carries if and
  only if it is an ACK and the type has a non-empty set of subscribed names; otherwise the
  versions stay as they are. The request is to be sent exactly when the type has a
  non-empty set of subscribed names.

  The cycle of a response: a response read on a stream, for which the update handler
  does not answer "resource type unsupported", puts a request on the empty queue, and the
  sender, holding the same stream, takes it and processes it. Afterwards the nonce of the
  type is the nonce of the response, whether the handler accepted or rejected it. If the
  type has a non-empty set of subscribed names, then one request is handed to
  \<^verbatim>\<open>stream.Send\<close>, with the names subscribed and the nonce of the response; when the
  handler accepted the response, the version of the type and the version of the request
  are the version of the response; when it rejected it, the versions stay as they are and
  the request carries the version held before, and the error.
\<close>

theorem ack_updates_tables:
  assumes "ack_stream ack = strm"
    and "processAckRequest rng t ack strm = (t', rs, u, ver, non, doSend)"
    and "upd = \<lparr>upd_Resources = Resources r, upd_URL = RespTypeUrl r,
                 upd_Version = RespVersionInfo r\<rparr>"
    and "adsRequestCh tr = []"
    and "send_loop rng streamSend [FromRequestCh] (recv_msg s r tr, Some s) = (tr', strm')"
  shows "nonces t' = (nonces t)(ack_url ack \<mapsto> ack_nonce ack) \<and>
         versions t' =
           (if ack_nackErr ack = None \<and> (\<exists>s. resources t (ack_url ack) = Some s \<and> s \<noteq> {})
            then (versions t)(ack_url ack \<mapsto> ack_version ack) else versions t) \<and>
         (doSend \<longleftrightarrow> (\<exists>s. resources t (ack_url ack) = Some s \<and> s \<noteq> {})) \<and>
         (doSend \<and> ack_nackErr ack = None \<longrightarrow>
            versions t' (ack_url ack) = Some ver \<and> ver = ack_version ack \<and>
            nonces t' (ack_url ack) = Some non \<and> non = ack_nonce ack) \<and>
         (ErrType (updateHandler tr upd) \<noteq> ErrorTypeResourceTypeUnsupported \<longrightarrow>
            nonces tr' (RespTypeUrl r) = Some (RespNonce r) \<and>
            (\<forall>names. resources tr (RespTypeUrl r) = Some names \<and> names \<noteq> {} \<longrightarrow>
               (updateHandler tr upd = None \<longrightarrow>
                  versions tr' (RespTypeUrl r) = Some (RespVersionInfo r)) \<and>
               (updateHandler tr upd \<noteq> None \<longrightarrow> versions tr' = versions tr) \<and>
               sendCalls tr' = sendCalls tr @
                 [(s, \<lparr>Node = nodeProto tr, TypeUrl = RespTypeUrl r,
                       ResourceNames = rng (ranges tr) names,
                       VersionInfo =
                         (if updateHandler tr upd = None then RespVersionInfo r
                          else lookup (versions tr) (RespTypeUrl r)),
                       ResponseNonce = RespNonce r,
                       ErrorDetail =
                         map_option (\<lambda>e. \<lparr>Code = InvalidArgument, Message = Error_text e\<rparr>)
                           (updateHandler tr upd)\<rparr>)]))"
proof -
  have tables: "nonces t' = (nonces t)(ack_url ack \<mapsto> ack_nonce ack) \<and>
         versions t' =
           (if ack_nackErr ack = None \<and> (\<exists>s. resources t (ack_url ack) = Some s \<and> s \<noteq> {})
            then (versions t)(ack_url ack \<mapsto> ack_version ack) else versions t) \<and>
         (doSend \<longleftrightarrow> (\<exists>s. resources t (ack_url ack) = Some s \<and> s \<noteq> {})) \<and>
         (doSend \<and> ack_nackErr ack = None \<longrightarrow>
            versions t' (ack_url ack) = Some ver \<and> ver = ack_version ack \<and>
            nonces t' (ack_url ack) = Some non \<and> non = ack_nonce ack)"
    using assms(1,2)
    by (auto simp: processAckRequest_def Let_def split: option.splits if_splits)
  have cycle: "ErrType (updateHandler tr upd) \<noteq> ErrorTypeResourceTypeUnsupported \<longrightarrow>
            nonces tr' (RespTypeUrl r) = Some (RespNonce r) \<and>
            (\<forall>names. resources tr (RespTypeUrl r) = Some names \<and> names \<noteq> {} \<longrightarrow>
               (updateHandler tr upd = None \<longrightarrow>
                  versions tr' (RespTypeUrl r) = Some (RespVersionInfo r)) \<and>
               (updateHandler tr upd \<noteq> None \<longrightarrow> versions tr' = versions tr) \<and>
               sendCalls tr' = sendCalls tr @
                 [(s, \<lparr>Node = nodeProto tr, TypeUrl = RespTypeUrl r,
                       ResourceNames = rng (ranges tr) names,
                       VersionInfo =
                         (if updateHandler tr upd = None then RespVersionInfo r
                          else lookup (versions tr) (RespTypeUrl r)),
                       ResponseNonce = RespNonce r,
                       ErrorDetail =
                         map_option (\<lambda>e. \<lparr>Code = InvalidArgument, Message = Error_text e\<rparr>)
                           (updateHandler tr upd)\<rparr>)])"
  proof (cases "updateHandler tr upd")
    case None
    then show ?thesis
      using assms(3,4,5)
      by (auto simp: recv_msg_def send_request_def processAckRequest_def mapToSlice_def
            sendAggregatedDiscoveryServiceRequest_def Let_def split: option.splits if_splits)
  next
    case (Some e)
    then show ?thesis
      using assms(3,4,5)
      by (auto simp: recv_msg_def send_request_def processAckRequest_def mapToSlice_def
            sendAggregatedDiscoveryServiceRequest_def Let_def split: option.splits if_splits)
  qed
  from tables cycle show ?thesis
    by (elim conjE, intro conjI) assumption+
qed

theorem ack_updates_tables_witness:
  "ack_stream ex_ack = Some 1 \<and> adsRequestCh ex_transport = [] \<and>
   nonces (fst (processAckRequest ex_rng ex_transport ex_ack (Some 1))) ''A'' = Some ''n1'' \<and>
   versions (fst (processAckRequest ex_rng ex_transport ex_ack (Some 1))) ''A'' = Some ''1'' \<and>
   nonces (fst (processAckRequest ex_rng ex_accepted ex_nack (Some 1))) ''A'' = Some ''n2'' \<and>
   versions (fst (processAckRequest ex_rng ex_accepted ex_nack (Some 1))) ''A'' = Some ''1'' \<and>
   nonces (fst (send_loop ex_rng ex_send_ok [FromRequestCh]
      (recv_msg 1 ex_resp ex_transport, Some 1))) ''A'' = Some ''n1'' \<and>
   versions (fst (send_loop ex_rng ex_send_ok [FromRequestCh]
      (recv_msg 1 ex_resp ex_transport, Some 1))) ''A'' = Some ''1'' \<and>
   sendCalls (fst (send_loop ex_rng ex_send_ok [FromRequestCh]
      (recv_msg 1 ex_resp ex_transport, Some 1))) =
     [(1, \<lparr>Node = ''node'', TypeUrl = ''A'', ResourceNames = [''x'', ''y''],
           VersionInfo = ''1'', ResponseNonce = ''n1'', ErrorDetail = None\<rparr>)] \<and>
   nonces (fst (send_loop ex_rng ex_send_ok [FromRequestCh]
      (recv_msg 1 ex_resp_bad ex_transport, Some 1))) ''A'' = Some ''n2'' \<and>
   versions (fst (send_loop ex_rng ex_send_ok [FromRequestCh]
      (recv_msg 1 ex_resp_bad ex_transport, Some 1))) ''A'' = Some ''0'' \<and>
   sendCalls (fst (send_loop ex_rng ex_send_ok [FromRequestCh]
      (recv_msg 1 ex_resp_bad ex_transport, Some 1))) =
     [(1, \<lparr>Node = ''node'', TypeUrl = ''A'', ResourceNames = [''x'', ''y''],
           VersionInfo = ''0'', ResponseNonce = ''n2'',
           ErrorDetail = Some \<lparr>Code = InvalidArgument, Message = ''rejected''\<rparr>\<rparr>)]"
proof -
  let ?good = "send_loop ex_rng ex_send_ok [FromRequestCh] (recv_msg 1 ex_resp ex_transport, Some 1)"
  let ?bad = "send_loop ex_rng ex_send_ok [FromRequestCh] (recv_msg 1 ex_resp_bad ex_transport, Some 1)"
  obtain t' rs u ver non doSend where
    run: "processAckRequest ex_rng ex_transport ex_ack (Some 1) = (t', rs, u, ver, non, doSend)"
    using prod_cases6 by blast
  obtain t2 rs2 u2 ver2 non2 doSend2 where
    run2: "processAckRequest ex_rng ex_accepted ex_nack (Some 1) =
             (t2, rs2, u2, ver2, non2, doSend2)"
    using prod_cases6 by blast
  have h: "ack_stream ex_ack = Some 1" and h2: "ack_stream ex_nack = Some 1"
    by (simp_all add: ex_ack_def ex_nack_def)
  have q: "adsRequestCh ex_transport = []" by (simp add: ex_transport_def)
  have good: "?good = (fst ?good, snd ?good)" and bad: "?bad = (fst ?bad, snd ?bad)"
    by simp_all
  have names: "ex_rng 0 {''x'', ''y''} = [''x'', ''y'']" by (simp add: ex_rng_def)
  note a = ack_updates_tables [OF h run refl q good]
  note b = ack_updates_tables [OF h2 run2 refl q bad]
  have a1: "nonces t' ''A'' = Some ''n1'' \<and> versions t' ''A'' = Some ''1''"
    using a [THEN conjunct1] a [THEN conjunct2, THEN conjunct1]
    by (simp add: ex_ack_def ex_transport_def)
  have b1: "nonces t2 ''A'' = Some ''n2'' \<and> versions t2 ''A'' = Some ''1''"
    using b [THEN conjunct1] b [THEN conjunct2, THEN conjunct1]
    by (simp add: ex_nack_def ex_accepted_def ex_transport_def)
  have a2: "nonces (fst ?good) ''A'' = Some ''n1'' \<and>
            versions (fst ?good) ''A'' = Some ''1'' \<and>
            sendCalls (fst ?good) =
              [(1, \<lparr>Node = ''node'', TypeUrl = ''A'', ResourceNames = [''x'', ''y''],
                    VersionInfo = ''1'', ResponseNonce = ''n1'', ErrorDetail = None\<rparr>)]"
    using a [THEN conjunct2, THEN conjunct2, THEN conjunct2, THEN conjunct2] names
    by (simp add: ex_transport_def ex_resp_def ex_handler_def)
  have b2: "nonces (fst ?bad) ''A'' = Some ''n2'' \<and>
            versions (fst ?bad) ''A'' = Some ''0'' \<and>
            sendCalls (fst ?bad) =
              [(1, \<lparr>Node = ''node'', TypeUrl = ''A'', ResourceNames = [''x'', ''y''],
                    VersionInfo = ''0'', ResponseNonce = ''n2'',
                    ErrorDetail = Some \<lparr>Code = InvalidArgument, Message = ''rejected''\<rparr>\<rparr>)]"
    using b [THEN conjunct2, THEN conjunct2, THEN conjunct2, THEN conjunct2] names
    by (simp add: ex_transport_def ex_resp_bad_def ex_handler_def lookup_def)
  from h q a1 b1 a2 b2 run run2 show ?thesis by simp
qed

text \<open>
  C2. An ACK or NACK request whose stream is not the stream the sender holds is dropped:
  the transport, with its nonces, its versions and the calls of \<^verbatim>\<open>stream.Send\<close> made so
  far, and the stream of the sender are as before.
\<close>

theorem stale_ack_dropped:
  assumes "ack_stream ack \<noteq> strm"
  shows "processAckRequest rng t ack strm = (t, [], [], [], [], False) \<and>
         send_request rng streamSend (AckRequest ack) (t, strm) = (t, strm)"
  using assms by (simp add: processAckRequest_def send_request_def)

theorem stale_ack_dropped_witness:
  "ack_stream ex_ack \<noteq> Some 2 \<and>
   send_request ex_rng ex_send_ok (AckRequest ex_ack) (ex_transport, Some 2) =
     (ex_transport, Some 2)"
proof -
  have h: "ack_stream ex_ack \<noteq> Some 2" by (simp add: ex_ack_def)
  from stale_ack_dropped [OF h] h show ?thesis by blast
qed

text \<open>
  C5. An ACK or NACK request processed against the live stream for a type whose set of
  subscribed names is absent or empty makes no call of \<^verbatim>\<open>stream.Send\<close>: the only change
  is the nonce of the type, which becomes the nonce of the request; the versions stay as
  they are.
\<close>

theorem ack_without_subscription_not_sent:
  assumes "ack_stream ack = strm"
    and "resources t (ack_url ack) = None \<or> resources t (ack_url ack) = Some {}"
  shows "send_request rng streamSend (AckRequest ack) (t, strm) =
           (t\<lparr>nonces := (nonces t)(ack_url ack \<mapsto> ack_nonce ack)\<rparr>, strm)"
  using assms by (auto simp add: processAckRequest_def send_request_def)

theorem ack_without_subscription_not_sent_witness:
  "ack_stream ex_ack = Some 1 \<and> resources ex_unsubscribed (ack_url ex_ack) = None \<and>
   sendCalls (fst (send_request ex_rng ex_send_ok (AckRequest ex_ack) (ex_unsubscribed, Some 1)))
     = [] \<and>
   versions (fst (send_request ex_rng ex_send_ok (AckRequest ex_ack) (ex_unsubscribed, Some 1)))
     ''A'' = Some ''0'' \<and>
   nonces (fst (send_request ex_rng ex_send_ok (AckRequest ex_ack) (ex_unsubscribed, Some 1)))
     ''A'' = Some ''n1''"
proof -
  have h1: "ack_stream ex_ack = Some 1" by (simp add: ex_ack_def)
  have h2: "resources ex_unsubscribed (ack_url ex_ack) = None"
    by (simp add: ex_unsubscribed_def)
  have h3: "resources ex_unsubscribed (ack_url ex_ack) = None \<or>
            resources ex_unsubscribed (ack_url ex_ack) = Some {}"
    using h2 by simp
  show ?thesis
    using ack_without_subscription_not_sent [OF h1 h3] h1 h2
    by (simp add: ex_unsubscribed_def ex_transport_def ex_ack_def)
qed

section \<open>Subscriptions\<close>

text \<open>
  C10. A subscription with no names, processed while the sender holds a stream, is handed
  to \<^verbatim>\<open>stream.Send\<close> as a request with no resource names, with the version and the nonce
  of the type, and the set of subscribed names of the type becomes the empty set.
\<close>

theorem empty_subscription_sent:
  "sendCalls (fst (send_request rng streamSend
       (ResourceRequest \<lparr>req_resources = [], req_url = u\<rparr>) (t, Some s))) =
     sendCalls t @
       [(s, \<lparr>Node = nodeProto t, TypeUrl = u, ResourceNames = [],
             VersionInfo = lookup (versions t) u, ResponseNonce = lookup (nonces t) u,
             ErrorDetail = None\<rparr>)] \<and>
   resources (fst (send_request rng streamSend
       (ResourceRequest \<lparr>req_resources = [], req_url = u\<rparr>) (t, Some s))) =
     (resources t)(u \<mapsto> {})"
  by (auto simp add: processResourceRequest_def send_request_def
        sendAggregatedDiscoveryServiceRequest_def sliceToMap_def Let_def split: option.splits)

section \<open>Resending the subscriptions on a new stream\<close>

lemma existingRequest_frame [simp]:
  "existingRequest vo (t\<lparr>sendCalls := c\<rparr>) u = existingRequest vo t u"
  "existingRequest vo (t\<lparr>ranges := n\<rparr>) u = existingRequest vo t u"
  "existingRequest vo (t\<lparr>nonces := m\<rparr>) u = existingRequest vo t u"
  by (simp_all add: existingRequest_def)

lemma existingRequests_frame [simp]:
  "existingRequests rng (t\<lparr>sendCalls := c\<rparr>) n us = existingRequests rng t n us"
  "existingRequests rng (t\<lparr>ranges := k\<rparr>) n us = existingRequests rng t n us"
  "existingRequests rng (t\<lparr>nonces := m\<rparr>) n us = existingRequests rng t n us"
  by (induction us arbitrary: n) simp_all

lemma existingRequests_length [simp]:
  "length (existingRequests rng t n us) = length us"
  by (induction us arbitrary: n) simp_all

lemma existingRequests_nth:
  "i < length us \<Longrightarrow>
   existingRequests rng t n us ! i = existingRequest (rng (n + i)) t (us ! i)"
proof (induction us arbitrary: n i)
  case Nil
  then show ?case by simp
next
  case (Cons u us)
  then show ?case by (cases i) simp_all
qed

lemma sendADS_existing:
  "resources t u = Some names \<Longrightarrow>
   sendAggregatedDiscoveryServiceRequest streamSend (t\<lparr>ranges := Suc (ranges t)\<rparr>) strm
     (mapToSlice vo names) u (lookup (versions t) u) [] None
   = (t\<lparr>ranges := Suc (ranges t),
         sendCalls := sendCalls t @ [(strm, existingRequest vo t u)]\<rparr>,
      map_option (Errorf ''sending ADS request failed: '')
        (streamSend (sendCalls t) strm (existingRequest vo t u)))"
  by (simp add: sendAggregatedDiscoveryServiceRequest_def existingRequest_def mapToSlice_def
        Let_def split: option.splits)

lemma sendExisting_loop_calls:
  assumes "\<forall>u\<in>set us. resources t u \<noteq> None"
    and "sendExisting_loop rng streamSend strm us t = (t', ok)"
    and "reqs = existingRequests rng t (ranges t) us"
  shows "\<exists>k\<le>length us.
     t' = t\<lparr>ranges := ranges t + k,
            sendCalls := sendCalls t @ map (Pair strm) (take k reqs)\<rparr> \<and>
     (\<forall>i<k. (streamSend (sendCalls t @ map (Pair strm) (take i reqs)) strm (reqs ! i) \<noteq> None)
              \<longleftrightarrow> (\<not> ok \<and> Suc i = k)) \<and>
     (ok \<longrightarrow> k = length us) \<and> (\<not> ok \<longrightarrow> 0 < k)"
  using assms
proof (induction us arbitrary: t reqs)
  case Nil
  then show ?case by simp
next
  case (Cons u us)
  from Cons.prems(1) obtain names where names: "resources t u = Some names" by auto
  let ?r0 = "existingRequest (rng (ranges t)) t u"
  let ?t1 = "t\<lparr>ranges := Suc (ranges t), sendCalls := sendCalls t @ [(strm, ?r0)]\<rparr>"
  let ?rest = "existingRequests rng t (Suc (ranges t)) us"
  have reqs: "reqs = ?r0 # ?rest" using Cons.prems(3) by simp
  show ?case
  proof (cases "streamSend (sendCalls t) strm ?r0")
    case (Some err)
    with Cons.prems(2) names have res: "t' = ?t1" "\<not> ok"
      by (auto simp add: sendADS_existing)
    show ?thesis
      by (rule exI [of _ "Suc 0"]) (use res Some reqs in simp)
  next
    case None
    with Cons.prems(2) names have run: "sendExisting_loop rng streamSend strm us ?t1 = (t', ok)"
      by (simp add: sendADS_existing)
    have sub: "\<forall>u\<in>set us. resources ?t1 u \<noteq> None" using Cons.prems(1) by simp
    have rest: "?rest = existingRequests rng ?t1 (ranges ?t1) us" by simp
    from Cons.IH [OF sub run rest] obtain k where
      k: "k \<le> length us"
      and t': "t' = ?t1\<lparr>ranges := ranges ?t1 + k,
                 sendCalls := sendCalls ?t1 @ map (Pair strm) (take k ?rest)\<rparr>"
      and fails: "\<forall>i<k. (streamSend (sendCalls ?t1 @ map (Pair strm) (take i ?rest)) strm
                  (?rest ! i) \<noteq> None) \<longleftrightarrow> (\<not> ok \<and> Suc i = k)"
      and okk: "ok \<longrightarrow> k = length us" and nok: "\<not> ok \<longrightarrow> 0 < k"
      by blast
    have all: "\<forall>i<Suc k. (streamSend (sendCalls t @ map (Pair strm) (take i reqs)) strm
                  (reqs ! i) \<noteq> None) \<longleftrightarrow> (\<not> ok \<and> Suc i = Suc k)"
    proof (intro allI impI)
      fix i assume i: "i < Suc k"
      show "(streamSend (sendCalls t @ map (Pair strm) (take i reqs)) strm (reqs ! i) \<noteq> None)
              \<longleftrightarrow> (\<not> ok \<and> Suc i = Suc k)"
      proof (cases i)
        case 0
        then show ?thesis using None nok reqs by auto
      next
        case (Suc j)
        with i have "j < k" by simp
        with fails have "(streamSend (sendCalls ?t1 @ map (Pair strm) (take j ?rest)) strm
                  (?rest ! j) \<noteq> None) \<longleftrightarrow> (\<not> ok \<and> Suc j = k)" by blast
        then show ?thesis using Suc reqs by simp
      qed
    qed
    show ?thesis
      by (rule exI [of _ "Suc k"]) (use k t' all okk nok reqs in simp)
  qed
qed

lemma sendExisting_calls:
  assumes "visits (rng (ranges t)) (dom (resources t))"
    and "sendExisting rng streamSend t strm = (t', ok)"
    and "keys = rng (ranges t) (dom (resources t))"
    and "reqs = existingRequests rng t (Suc (ranges t)) keys"
  shows "\<exists>k\<le>length keys.
     t' = t\<lparr>nonces := Map.empty, ranges := Suc (ranges t) + k,
            sendCalls := sendCalls t @ map (Pair strm) (take k reqs)\<rparr> \<and>
     (\<forall>i<k. (streamSend (sendCalls t @ map (Pair strm) (take i reqs)) strm (reqs ! i) \<noteq> None)
              \<longleftrightarrow> (\<not> ok \<and> Suc i = k)) \<and>
     (ok \<longrightarrow> k = length keys) \<and> (\<not> ok \<longrightarrow> 0 < k)"
proof -
  let ?t0 = "t\<lparr>nonces := Map.empty, ranges := Suc (ranges t)\<rparr>"
  have run: "sendExisting_loop rng streamSend strm keys ?t0 = (t', ok)"
    using assms(2,3) by (simp add: sendExisting_def Let_def)
  have present: "\<forall>u\<in>set keys. resources ?t0 u \<noteq> None"
    using assms(1,3) by (auto simp: visits_def)
  have same: "reqs = existingRequests rng ?t0 (ranges ?t0) keys"
    using assms(4) by simp
  from sendExisting_loop_calls [OF present run same] show ?thesis
    by simp
qed


lemma dom_two: "dom (resources ex_two_types) = {''A'', ''B''}"
  by (auto simp: ex_two_types_def)

lemma visits_ex:
  "visits (ex_rng n) {''A'', ''B''}" "visits (ex_rng n) {''x''}" "visits (ex_rng n) {''y''}"
  "visits (ex_rng n) {''x'', ''y''}" "visits (ex_rng n) {''A''}"
  by (auto simp: visits_def ex_rng_def)

lemma sendExisting_two_broken:
  "sendCalls (fst (sendExisting ex_rng ex_send_broken ex_two_types 1)) =
     [(1, \<lparr>Node = ''node'', TypeUrl = ''A'', ResourceNames = [''x''], VersionInfo = ''0'',
           ResponseNonce = [], ErrorDetail = None\<rparr>)]"
  by (simp add: sendExisting_def dom_two Let_def)
     (simp add: ex_two_types_def ex_transport_def ex_send_broken_def ex_rng_def
        sendAggregatedDiscoveryServiceRequest_def mapToSlice_def lookup_def)

text \<open>
  C4, as the claim states it, fails: when a send fails, \<^verbatim>\<open>sendExisting\<close> returns at
  once, and the types the loop has not reached get no request.
\<close>

theorem sendExisting_stops_at_failure:
  "''B'' \<in> dom (resources ex_two_types) \<and>
   ''B'' \<notin> (TypeUrl \<circ> snd) ` set (sendCalls (fst (sendExisting ex_rng ex_send_broken ex_two_types 1)))"
  using sendExisting_two_broken by (simp add: dom_two)

text \<open>
  C4 (amended). On a new stream, \<^verbatim>\<open>sendExisting\<close> empties the nonces, and leaves the
  versions and the subscribed names as they are. It then takes the subscribed types one
  after another, in the order \<open>keys\<close> in which the loop over the map visits them, and hands
  one request for each to \<^verbatim>\<open>stream.Send\<close>, stopping at the first send that fails: of the
  \<open>k\<close> calls it makes, only the last can have failed, and it has failed exactly when the
  result is false; when the result is true, every subscribed type has got exactly one
  request. The request of a type carries all the names subscribed for the type, each
  once, the version last accepted for it, an empty nonce and no error.
\<close>

theorem sendExisting_resends:
  assumes "visits (rng (ranges t)) (dom (resources t))"
    and "\<forall>n u names. resources t u = Some names \<longrightarrow> visits (rng n) names"
    and "sendExisting rng streamSend t strm = (t', ok)"
    and "keys = rng (ranges t) (dom (resources t))"
    and "reqs = existingRequests rng t (Suc (ranges t)) keys"
  shows "nonces t' = Map.empty \<and> versions t' = versions t \<and> resources t' = resources t \<and>
     (\<exists>k\<le>length keys.
        sendCalls t' = sendCalls t @ map (Pair strm) (take k reqs) \<and>
        (\<forall>i<k. (streamSend (sendCalls t @ map (Pair strm) (take i reqs)) strm (reqs ! i)
                   \<noteq> None) \<longleftrightarrow> (\<not> ok \<and> Suc i = k)) \<and>
        (ok \<longrightarrow> k = length keys) \<and> (\<not> ok \<longrightarrow> 0 < k)) \<and>
     distinct keys \<and> set keys = dom (resources t) \<and> length reqs = length keys \<and>
     (\<forall>i<length keys. \<exists>names. resources t (keys ! i) = Some names \<and>
        TypeUrl (reqs ! i) = keys ! i \<and>
        set (ResourceNames (reqs ! i)) = names \<and>
        distinct (ResourceNames (reqs ! i)) \<and>
        VersionInfo (reqs ! i) = lookup (versions t) (keys ! i) \<and>
        ResponseNonce (reqs ! i) = [] \<and>
        ErrorDetail (reqs ! i) = None)"
proof -
  from sendExisting_calls [OF assms(1,3,4,5)] obtain k where
    k: "k \<le> length keys"
    and t': "t' = t\<lparr>nonces := Map.empty, ranges := Suc (ranges t) + k,
              sendCalls := sendCalls t @ map (Pair strm) (take k reqs)\<rparr>"
    and fails: "\<forall>i<k. (streamSend (sendCalls t @ map (Pair strm) (take i reqs)) strm (reqs ! i)
                   \<noteq> None) \<longleftrightarrow> (\<not> ok \<and> Suc i = k)"
    and okk: "ok \<longrightarrow> k = length keys" and nok: "\<not> ok \<longrightarrow> 0 < k"
    by blast
  have frame: "nonces t' = Map.empty \<and> versions t' = versions t \<and> resources t' = resources t"
    using t' by simp
  have calls: "sendCalls t' = sendCalls t @ map (Pair strm) (take k reqs)"
    using t' by simp
  have keys: "distinct keys \<and> set keys = dom (resources t)"
    using assms(1,4) by (simp add: visits_def)
  have len: "length reqs = length keys" using assms(5) by simp
  have content: "\<forall>i<length keys. \<exists>names. resources t (keys ! i) = Some names \<and>
        TypeUrl (reqs ! i) = keys ! i \<and>
        set (ResourceNames (reqs ! i)) = names \<and>
        distinct (ResourceNames (reqs ! i)) \<and>
        VersionInfo (reqs ! i) = lookup (versions t) (keys ! i) \<and>
        ResponseNonce (reqs ! i) = [] \<and>
        ErrorDetail (reqs ! i) = None"
  proof (intro allI impI)
    fix i assume i: "i < length keys"
    then have "keys ! i \<in> dom (resources t)" using keys by (metis nth_mem)
    then obtain names where names: "resources t (keys ! i) = Some names" by auto
    with assms(2) have v: "visits (rng (Suc (ranges t) + i)) names" by blast
    have "reqs ! i = existingRequest (rng (Suc (ranges t) + i)) t (keys ! i)"
      using assms(5) i by (simp add: existingRequests_nth)
    with names v show "\<exists>names. resources t (keys ! i) = Some names \<and>
        TypeUrl (reqs ! i) = keys ! i \<and>
        set (ResourceNames (reqs ! i)) = names \<and>
        distinct (ResourceNames (reqs ! i)) \<and>
        VersionInfo (reqs ! i) = lookup (versions t) (keys ! i) \<and>
        ResponseNonce (reqs ! i) = [] \<and>
        ErrorDetail (reqs ! i) = None"
      by (simp add: existingRequest_def visits_def)
  qed
  have sent: "\<exists>k\<le>length keys.
        sendCalls t' = sendCalls t @ map (Pair strm) (take k reqs) \<and>
        (\<forall>i<k. (streamSend (sendCalls t @ map (Pair strm) (take i reqs)) strm (reqs ! i)
                   \<noteq> None) \<longleftrightarrow> (\<not> ok \<and> Suc i = k)) \<and>
        (ok \<longrightarrow> k = length keys) \<and> (\<not> ok \<longrightarrow> 0 < k)"
    using k calls fails okk nok by (intro exI [of _ k] conjI)
  from frame sent keys len content show ?thesis
    by (elim conjE, intro conjI) assumption+
qed

theorem sendExisting_resends_witness:
  "visits (ex_rng 0) (dom (resources ex_two_types)) \<and>
   snd (sendExisting ex_rng ex_send_ok ex_two_types 1) \<and>
   nonces (fst (sendExisting ex_rng ex_send_ok ex_two_types 1)) = Map.empty \<and>
   versions (fst (sendExisting ex_rng ex_send_ok ex_two_types 1)) = versions ex_two_types \<and>
   resources (fst (sendExisting ex_rng ex_send_ok ex_two_types 1)) = resources ex_two_types \<and>
   sendCalls (fst (sendExisting ex_rng ex_send_ok ex_two_types 1)) =
     [(1, \<lparr>Node = ''node'', TypeUrl = ''A'', ResourceNames = [''x''], VersionInfo = ''0'',
           ResponseNonce = [], ErrorDetail = None\<rparr>),
      (1, \<lparr>Node = ''node'', TypeUrl = ''B'', ResourceNames = [''y''], VersionInfo = [],
           ResponseNonce = [], ErrorDetail = None\<rparr>)] \<and>
   \<not> snd (sendExisting ex_rng ex_send_second_fails ex_two_types 1) \<and>
   sendCalls (fst (sendExisting ex_rng ex_send_second_fails ex_two_types 1)) =
     [(1, \<lparr>Node = ''node'', TypeUrl = ''A'', ResourceNames = [''x''], VersionInfo = ''0'',
           ResponseNonce = [], ErrorDetail = None\<rparr>),
      (1, \<lparr>Node = ''node'', TypeUrl = ''B'', ResourceNames = [''y''], VersionInfo = [],
           ResponseNonce = [], ErrorDetail = None\<rparr>)]"
proof -
  let ?ok = "sendExisting ex_rng ex_send_ok ex_two_types 1"
  let ?bad = "sendExisting ex_rng ex_send_second_fails ex_two_types 1"
  have h1: "visits (ex_rng (ranges ex_two_types)) (dom (resources ex_two_types))"
    by (simp add: dom_two visits_ex)
  have h2: "\<forall>n u names. resources ex_two_types u = Some names \<longrightarrow> visits (ex_rng n) names"
    by (auto simp: ex_two_types_def visits_ex split: if_splits)
  have h3: "?ok = (fst ?ok, snd ?ok)" by simp
  have r0: "ranges ex_two_types = 0" by (simp add: ex_two_types_def ex_transport_def)
  have run: "snd ?ok \<and>
    sendCalls (fst ?ok) =
     [(1, \<lparr>Node = ''node'', TypeUrl = ''A'', ResourceNames = [''x''], VersionInfo = ''0'',
           ResponseNonce = [], ErrorDetail = None\<rparr>),
      (1, \<lparr>Node = ''node'', TypeUrl = ''B'', ResourceNames = [''y''], VersionInfo = [],
           ResponseNonce = [], ErrorDetail = None\<rparr>)]"
    by (simp add: sendExisting_def dom_two Let_def)
       (simp add: ex_two_types_def ex_transport_def ex_send_ok_def ex_rng_def
          sendAggregatedDiscoveryServiceRequest_def mapToSlice_def lookup_def)
  have run2: "\<not> snd ?bad \<and>
    sendCalls (fst ?bad) =
     [(1, \<lparr>Node = ''node'', TypeUrl = ''A'', ResourceNames = [''x''], VersionInfo = ''0'',
           ResponseNonce = [], ErrorDetail = None\<rparr>),
      (1, \<lparr>Node = ''node'', TypeUrl = ''B'', ResourceNames = [''y''], VersionInfo = [],
           ResponseNonce = [], ErrorDetail = None\<rparr>)]"
    by (simp add: sendExisting_def dom_two Let_def)
       (simp add: ex_two_types_def ex_transport_def ex_send_second_fails_def ex_rng_def
          sendAggregatedDiscoveryServiceRequest_def mapToSlice_def lookup_def)
  note r = sendExisting_resends [OF h1 h2 h3 refl refl]
  note f1 = r [THEN conjunct1]
  note f2 = r [THEN conjunct2, THEN conjunct1]
  note f3 = r [THEN conjunct2, THEN conjunct2, THEN conjunct1]
  from h1 r0 run run2 f1 f2 f3 show ?thesis by simp
qed

section \<open>The last subscription of a type wins\<close>




lemma send_requests_append:
  "send_requests rng streamSend (xs @ ys) st =
     send_requests rng streamSend ys (send_requests rng streamSend xs st)"
  by (simp add: send_requests_def)






section \<open>The receiver enqueues an ACK or a NACK\<close>

text \<open>
  C3. For a response read from the stream: when the update handler returns an error that
  is not of the type "resource type unsupported", the receiver puts on the queue a NACK
  for the type of the response, with the version the transport holds for that type (not
  the version of the response), the nonce of the response, the error and the stream; when
  the handler returns nil, it puts there an ACK with the version and the nonce of the
  response, no error and the stream. In both cases it goes on reading, with
  \<^verbatim>\<open>msgReceived\<close> set.
\<close>

theorem recv_enqueues_ack_or_nack:
  assumes "upd = \<lparr>upd_Resources = Resources r, upd_URL = RespTypeUrl r,
                   upd_Version = RespVersionInfo r\<rparr>"
  shows "(\<forall>e. updateHandler t upd = Some e \<and>
              ErrType (Some e) \<noteq> ErrorTypeResourceTypeUnsupported \<longrightarrow>
            recv_loop strm (r # rs) rerr m t =
              recv_loop strm rs rerr True
                (t\<lparr>adsRequestCh := adsRequestCh t @
                    [AckRequest \<lparr>ack_url = RespTypeUrl r,
                                 ack_version = lookup (versions t) (RespTypeUrl r),
                                 ack_nonce = RespNonce r, ack_nackErr = Some e,
                                 ack_stream = Some strm\<rparr>]\<rparr>)) \<and>
         (updateHandler t upd = None \<longrightarrow>
            recv_loop strm (r # rs) rerr m t =
              recv_loop strm rs rerr True
                (t\<lparr>adsRequestCh := adsRequestCh t @
                    [AckRequest \<lparr>ack_url = RespTypeUrl r,
                                 ack_version = RespVersionInfo r,
                                 ack_nonce = RespNonce r, ack_nackErr = None,
                                 ack_stream = Some strm\<rparr>]\<rparr>))"
  using assms by (simp add: recv_msg_def Let_def)

theorem recv_enqueues_ack_or_nack_witness:
  "adsRequestCh (fst (recv_loop 1 [ex_resp_bad] ex_eof False ex_transport)) =
     [AckRequest \<lparr>ack_url = ''A'', ack_version = ''0'', ack_nonce = ''n2'',
                  ack_nackErr = Some (Err ErrorTypeUnknown ''rejected''),
                  ack_stream = Some 1\<rparr>] \<and>
   adsRequestCh (fst (recv_loop 1 [ex_resp] ex_eof False ex_transport)) =
     [AckRequest \<lparr>ack_url = ''A'', ack_version = ''1'', ack_nonce = ''n1'',
                  ack_nackErr = None, ack_stream = Some 1\<rparr>]"
proof -
  let ?bad = "\<lparr>upd_Resources = Resources ex_resp_bad, upd_URL = RespTypeUrl ex_resp_bad,
                upd_Version = RespVersionInfo ex_resp_bad\<rparr>"
  let ?good = "\<lparr>upd_Resources = Resources ex_resp, upd_URL = RespTypeUrl ex_resp,
                 upd_Version = RespVersionInfo ex_resp\<rparr>"
  have bad: "updateHandler ex_transport ?bad = Some (Err ErrorTypeUnknown ''rejected'') \<and>
             ErrType (Some (Err ErrorTypeUnknown ''rejected'')) \<noteq>
               ErrorTypeResourceTypeUnsupported"
    by (simp add: ex_transport_def ex_handler_def ex_resp_bad_def)
  have good: "updateHandler ex_transport ?good = None"
    by (simp add: ex_transport_def ex_handler_def ex_resp_def)
  note nack = recv_enqueues_ack_or_nack [OF refl, of ex_transport ex_resp_bad 1 "[]" ex_eof False,
      THEN conjunct1, rule_format, OF bad]
  note ack = recv_enqueues_ack_or_nack [OF refl, of ex_transport ex_resp 1 "[]" ex_eof False,
      THEN conjunct2, rule_format, OF good]
  show ?thesis
    unfolding nack ack
    by (simp add: ex_transport_def ex_resp_def ex_resp_bad_def lookup_def)
qed

section \<open>Backoff between the attempts at a stream\<close>

lemma recv_msg_frame:
  "backoff (recv_msg strm r t) = backoff t \<and> adsStreamCh (recv_msg strm r t) = adsStreamCh t"
  by (simp add: recv_msg_def Let_def split: option.splits)

lemma recv_loop_frame:
  "recv_loop strm reads e m t = (t', b) \<Longrightarrow>
   backoff t' = backoff t \<and> adsStreamCh t' = adsStreamCh t \<and> (b \<longleftrightarrow> m \<or> reads \<noteq> [])"
proof (induction reads arbitrary: t m)
  case Nil
  then show ?case by auto
next
  case (Cons r reads)
  from Cons.prems have "recv_loop strm reads e True (recv_msg strm r t) = (t', b)" by simp
  from Cons.IH [OF this] show ?case by (simp add: recv_msg_frame)
qed

lemma publish_replaces:
  "length ch \<le> adsStreamCh_cap \<Longrightarrow> chan_send s (chan_drain ch) = Some [s]"
  by (cases ch) (simp_all add: chan_send_def chan_drain_def adsStreamCh_cap_def)

lemma adsRunner_iter_result:
  assumes "length (adsStreamCh t) \<le> adsStreamCh_cap"
  shows "\<exists>t' r'. adsRunner_iter a (t, r) = Some (t', r') \<and>
           backoff t' = backoff t \<and>
           length (adsStreamCh t') \<le> adsStreamCh_cap \<and>
           r' = (if msgs_received a then r\<lparr>backoffAttempt := 0, backoffTimer := 0\<rparr>
                 else r\<lparr>backoffAttempt := backoffAttempt r + 1,
                        backoffTimer := backoff t (backoffAttempt r)\<rparr>)"
proof (cases a)
  case (CreateFailed err)
  then show ?thesis
    using assms by (simp add: adsRunner_iter_def resetBackoff_of_def)
next
  case (Created strm reads e)
  obtain t' b where run: "recv strm reads e (t\<lparr>adsStreamCh := [strm]\<rparr>) = (t', b)"
    by (cases "recv strm reads e (t\<lparr>adsStreamCh := [strm]\<rparr>)")
  then have frame: "backoff t' = backoff t" "adsStreamCh t' = [strm]" "b \<longleftrightarrow> reads \<noteq> []"
    using recv_loop_frame [of strm reads e False "t\<lparr>adsStreamCh := [strm]\<rparr>" t' b]
    by (simp_all add: recv_def)
  show ?thesis
    using Created run frame publish_replaces [OF assms, of strm]
    by (simp add: adsRunner_iter_def resetBackoff_of_def adsStreamCh_cap_def)
qed

lemma int_value_inc:
  "int_value w < max_int \<Longrightarrow> int_value (w + 1) = int_value w + 1"
proof -
  assume a: "int_value w < max_int"
  have lo: "- (2 ^ 63) \<le> sint w" using sint_ge [of w] by simp
  have "sint (w + 1) = signed_take_bit (LENGTH(64) - 1) (sint w + sint (1::64 word))"
    by (rule sint_word_ariths)
  also have "\<dots> = signed_take_bit 63 (sint w + 1)" by simp
  also have "\<dots> = sint w + 1"
    using a lo by (intro signed_take_bit_int_eq_self) (simp_all add: int_value_def max_int_def)
  finally show ?thesis by (simp add: int_value_def)
qed

text \<open>
  C6. Each attempt at a stream returns, provided the stream channel holds no more than
  its capacity. If a response was read on the stream, the attempt counter and the delay
  of the timer are set to 0; if none was read, or no stream was created, the delay of the
  timer is the backoff of the attempt counter and the counter is incremented as Go
  increments an \<^verbatim>\<open>int\<close>: its value goes up by one, unless it is the largest
  \<^verbatim>\<open>int\<close>, where it wraps around. A first stream that breaks before any response leaves
  the delay at the backoff of 0 and the counter at 1.
\<close>

theorem adsRunner_backoff:
  assumes "length (adsStreamCh t) \<le> adsStreamCh_cap"
  shows "(\<exists>t' r'. adsRunner_iter a (t, r) = Some (t', r') \<and>
            (if msgs_received a
             then backoffTimer r' = 0 \<and> backoffAttempt r' = 0
             else backoffTimer r' = backoff t (backoffAttempt r) \<and>
                  backoffAttempt r' = backoffAttempt r + 1 \<and>
                  (int_value (backoffAttempt r) < max_int \<longrightarrow>
                     int_value (backoffAttempt r') = int_value (backoffAttempt r) + 1))) \<and>
         (\<exists>t'. adsRunner [Created strm [] e] t =
            Some (t', \<lparr>backoffAttempt = 1, backoffTimer = backoff t 0\<rparr>))"
proof
  from adsRunner_iter_result [OF assms, of a r]
  show "\<exists>t' r'. adsRunner_iter a (t, r) = Some (t', r') \<and>
            (if msgs_received a
             then backoffTimer r' = 0 \<and> backoffAttempt r' = 0
             else backoffTimer r' = backoff t (backoffAttempt r) \<and>
                  backoffAttempt r' = backoffAttempt r + 1 \<and>
                  (int_value (backoffAttempt r) < max_int \<longrightarrow>
                     int_value (backoffAttempt r') = int_value (backoffAttempt r) + 1))"
    by (cases "msgs_received a") (auto simp: int_value_inc)
next
  from adsRunner_iter_result [OF assms, of "Created strm [] e" runner_init]
  show "\<exists>t'. adsRunner [Created strm [] e] t =
            Some (t', \<lparr>backoffAttempt = 1, backoffTimer = backoff t 0\<rparr>)"
    by (auto simp: adsRunner_def runner_init_def)
qed

theorem adsRunner_backoff_witness:
  "length (adsStreamCh ex_transport) \<le> adsStreamCh_cap \<and>
   map_option snd (adsRunner [Created 1 [] ex_eof] ex_transport) =
     Some \<lparr>backoffAttempt = 1, backoffTimer = 1000\<rparr> \<and>
   int_value (1 :: 64 word) = 1 \<and> int_value (0 :: 64 word) < max_int"
proof -
  have h: "length (adsStreamCh ex_transport) \<le> adsStreamCh_cap"
    by (simp add: ex_transport_def)
  from adsRunner_backoff [OF h, of "CreateFailed ex_eof" runner_init 1 ex_eof, THEN conjunct2]
  obtain t' where "adsRunner [Created 1 [] ex_eof] ex_transport =
      Some (t', \<lparr>backoffAttempt = 1, backoffTimer = backoff ex_transport 0\<rparr>)"
    by blast
  with h show ?thesis by (simp add: ex_transport_def int_value_def max_int_def)
qed

section \<open>The stream channel holds the newest stream only\<close>

lemma handoff_invariant:
  assumes "handoff_reach h"
  shows "(chan h = [] \<or> (published h \<noteq> [] \<and> chan h = [last (published h)])) \<and>
         (\<forall>s. pc h = Holding s \<longrightarrow> chan h = [])"
  using assms
proof (induction rule: handoff_reach.induct)
  case init
  show ?case by (simp add: handoff_init_def)
next
  case (step h h')
  from step.hyps(2) step.IH show ?case
  proof (cases rule: handoff_step.cases)
    case (drain s)
    with step.IH show ?thesis by (auto simp: chan_drain_def)
  next
    case (push s ch)
    with step.IH show ?thesis by (auto simp: chan_send_def adsStreamCh_cap_def)
  next
    case (take x ch)
    with step.IH show ?thesis by (auto simp: chan_recv_def split: list.splits)
  qed
qed

text \<open>
  C8. In every state the runner and the sender can reach, the stream channel holds at
  most one stream. When the runner holds a new stream after its \<^verbatim>\<open>select\<close>, the channel
  is empty, so that its send does not block and leaves the new stream alone in the
  channel: a stream that was still waiting there is gone. Whatever the sender takes from
  the channel is the stream published last, and the channel is empty afterwards.
\<close>

theorem handoff_slot_latest:
  assumes "handoff_reach h"
  shows "length (chan h) \<le> adsStreamCh_cap \<and>
         (\<forall>s. pc h = Holding s \<longrightarrow> chan_send s (chan h) = Some [s]) \<and>
         (\<forall>x ch. chan_recv (chan h) = Some (x, ch) \<longrightarrow>
            published h \<noteq> [] \<and> x = last (published h) \<and> ch = [])"
  using handoff_invariant [OF assms]
  by (auto simp: adsStreamCh_cap_def chan_send_def chan_recv_def)

theorem handoff_slot_latest_witness:
  "handoff_reach ex_handoff \<and> length (chan ex_handoff) \<le> adsStreamCh_cap \<and>
   chan_recv (chan ex_handoff) = Some (2, []) \<and> last (published ex_handoff) = 2"
proof -
  have r1: "handoff_reach \<lparr>chan = [], pc = Holding 1, published = []\<rparr>"
    using handoff_reach.step [OF handoff_reach.init handoff_step.drain [of handoff_init 1]]
    by (simp add: handoff_init_def chan_drain_def)
  have r2: "handoff_reach \<lparr>chan = [1], pc = Idle, published = [1]\<rparr>"
    using handoff_reach.step [OF r1 handoff_step.push [of _ 1 "[1]"]]
    by (simp add: chan_send_def adsStreamCh_cap_def)
  have r3: "handoff_reach \<lparr>chan = [], pc = Holding 2, published = [1]\<rparr>"
    using handoff_reach.step [OF r2 handoff_step.drain [of _ 2]]
    by (simp add: chan_drain_def)
  have r4: "handoff_reach \<lparr>chan = [2], pc = Idle, published = [1, 2]\<rparr>"
    using handoff_reach.step [OF r3 handoff_step.push [of _ 2 "[2]"]]
    by (simp add: chan_send_def adsStreamCh_cap_def)
  then have reach: "handoff_reach ex_handoff" by (simp add: ex_handoff_def)
  from handoff_slot_latest [OF reach, THEN conjunct1] reach
  show ?thesis by (simp add: ex_handoff_def chan_recv_def)
qed

end
